theory Spec2Isabelle
  imports Complex_Main "HOL-Library.Multiset" "HOL-Library.Word"
begin

section \<open>Disaggregation calculator: data model\<close>

text \<open>
  The development embeds \<^verbatim>\<open>openquake/calculators/disaggregation.py\<close>.
  Probabilities are Python floats; they are modelled as exact reals, so every
  statement below is about the arithmetic the code writes down, not about the
  rounding of IEEE doubles.

  A numpy operand is either a scalar or an array. An array is kept as the list
  of its cells in row-major order, and two arrays have the same shape when
  they have the same number of cells (all matrices of one run are built on the
  same bin edges). An element-wise operation on two arrays of different sizes
  is the \<^verbatim>\<open>ValueError\<close> branch of the model.

  Every exception the code can raise is a value of the type \<open>error\<close>;
  \<open>MatrixTooLarge sid size\<close> is the \<^verbatim>\<open>ValueError\<close> with which
  \<^verbatim>\<open>save_bin_edges\<close> rejects an oversized disaggregation matrix.
\<close>

datatype error =
    IndexError
  | KeyError
  | ValueError
  | TypeError
  | ZeroDivisionError
  | StopIteration
  | SystemExit string
  | MatrixTooLarge nat int

datatype "value" = Num real | Arr "real list"

text \<open>\<^verbatim>\<open>1. - prob\<close>, element-wise.\<close>

fun one_minus :: "value \<Rightarrow> value" where
  "one_minus (Num a) = Num (1 - a)"
| "one_minus (Arr xs) = Arr (map (\<lambda>x. 1 - x) xs)"

text \<open>\<^verbatim>\<open>acc *= q\<close>: a scalar is broadcast over an array.\<close>

fun times_value :: "value \<Rightarrow> value \<Rightarrow> error + value" where
  "times_value (Num a) (Num b) = Inr (Num (a * b))"
| "times_value (Num a) (Arr ys) = Inr (Arr (map (\<lambda>y. a * y) ys))"
| "times_value (Arr xs) (Num b) = Inr (Arr (map (\<lambda>x. x * b) xs))"
| "times_value (Arr xs) (Arr ys) =
     (if length xs = length ys then Inr (Arr (map2 (\<lambda>x y. x * y) xs ys))
      else Inl ValueError)"

text \<open>
  \<^verbatim>\<open>
  def agg_probs(*probs):
      acc = 1. - probs[0]
      for prob in probs[1:]:
          acc *= 1. - prob
      return 1. - acc
  \<close>
\<close>

fun agg_loop :: "value \<Rightarrow> value list \<Rightarrow> error + value" where
  "agg_loop acc [] = Inr acc"
| "agg_loop acc (prob # probs) =
     (case times_value acc (one_minus prob) of
        Inl e \<Rightarrow> Inl e
      | Inr acc' \<Rightarrow> agg_loop acc' probs)"

fun agg_probs :: "value list \<Rightarrow> error + value" where
  "agg_probs [] = Inl IndexError"
| "agg_probs (p # probs) =
     (case agg_loop (one_minus p) probs of
        Inl e \<Rightarrow> Inl e
      | Inr acc \<Rightarrow> Inr (one_minus acc))"

text \<open>
  The accumulator of the reducer is an \<^verbatim>\<open>AccumDict(accum={})\<close>: reading a
  missing key yields (and stores) an empty inner dictionary. A key is
  \<^verbatim>\<open>(sid, rlz, poe, imt)\<close>; the inner dictionary maps a TRT index to the
  aggregated matrix.
\<close>

type_synonym key = "nat \<times> nat \<times> real option \<times> string"

type_synonym accum = "key \<rightharpoonup> (nat \<rightharpoonup> value)"

record task_result =
  trti :: nat
  entries :: "(key \<times> value) list"

text \<open>
  \<^verbatim>\<open>
  def agg_result(self, acc, result):
      trti = result.pop('trti')
      for key, val in result.items():
          acc[key][trti] = agg_probs(acc[key].get(trti, 0), val)
      return acc
  \<close>
\<close>

definition inner :: "accum \<Rightarrow> key \<Rightarrow> (nat \<rightharpoonup> value)" where
  "inner acc k = (case acc k of None \<Rightarrow> Map.empty | Some d \<Rightarrow> d)"

definition get_or_zero :: "(nat \<rightharpoonup> value) \<Rightarrow> nat \<Rightarrow> value" where
  "get_or_zero d t = (case d t of None \<Rightarrow> Num 0 | Some m \<Rightarrow> m)"

fun agg_entries :: "nat \<Rightarrow> accum \<Rightarrow> (key \<times> value) list \<Rightarrow> error + accum" where
  "agg_entries t acc [] = Inr acc"
| "agg_entries t acc ((k, val) # kvs) =
     (case agg_probs [get_or_zero (inner acc k) t, val] of
        Inl e \<Rightarrow> Inl e
      | Inr m \<Rightarrow> agg_entries t (acc(k \<mapsto> (inner acc k)(t \<mapsto> m))) kvs)"

definition agg_result :: "accum \<Rightarrow> task_result \<Rightarrow> error + accum" where
  "agg_result acc result = agg_entries (trti result) acc (entries result)"



text \<open>
  Proof device: the reducer seen as one fold over all \<^verbatim>\<open>(trti, key, value)\<close>
  entries of all task results, on a state that is either an error or an
  accumulator.
\<close>

definition entry_step :: "nat \<times> key \<times> value \<Rightarrow> error + accum \<Rightarrow> error + accum" where
  "entry_step x s =
     (case x of (t, k, val) \<Rightarrow>
        (case s of
           Inl e \<Rightarrow> Inl e
         | Inr acc \<Rightarrow>
             (case agg_probs [get_or_zero (inner acc k) t, val] of
                Inl e \<Rightarrow> Inl e
              | Inr m \<Rightarrow> Inr (acc(k \<mapsto> (inner acc k)(t \<mapsto> m))))))"





section \<open>Densification of the accumulated matrices\<close>

text \<open>
  \<^verbatim>\<open>
  def _to_matrix(matrices, num_trts):
      trti = next(iter(matrices))
      mat = numpy.zeros((num_trts,) + matrices[trti].shape)
      for trti in matrices:
          mat[trti] = matrices[trti]
      return mat
  \<close>
  The dictionary \<^verbatim>\<open>trti -> matrix\<close> is an association list in insertion order
  (the first key fixes the shape of the result); a Python dictionary has
  distinct keys. The result is the list of its \<^verbatim>\<open>num_trts\<close> slices.
\<close>

fun assign_rows :: "real list list \<Rightarrow> (nat \<times> real list) list \<Rightarrow> error + real list list" where
  "assign_rows mat [] = Inr mat"
| "assign_rows mat ((t, m) # rest) =
     (if length mat \<le> t then Inl IndexError
      else if length m \<noteq> length (mat ! t) then Inl ValueError
      else assign_rows (mat[t := m]) rest)"

definition to_matrix :: "(nat \<times> real list) list \<Rightarrow> nat \<Rightarrow> error + real list list" where
  "to_matrix matrices num_trts =
     (case matrices of
        [] \<Rightarrow> Inl StopIteration
      | (t0, m0) # _ \<Rightarrow>
          assign_rows (replicate num_trts (replicate (length m0) 0)) matrices)"

definition matrices0 :: "(nat \<times> real list) list" where
  "matrices0 = [(2, [1 / 10, 1 / 5]), (0, [3 / 10, 0])]"

section \<open>PMF extraction\<close>

text \<open>
  \<^verbatim>\<open>disagg.pmf_map\<close> (hazardlib) is an ordered dictionary from the name of a PMF
  kind to the function that projects a disaggregation matrix onto the axes of
  that kind. It is a parameter of the model. Such a function receives either
  the 6-dimensional tensor (the list of its TRT slices) or the 5-dimensional
  matrix composed across the TRT axis, and returns the cells of the PMF.
\<close>

datatype pmf_arg = Stacked "real list list" | Composed "value"

type_synonym pmf_map = "(string \<times> (pmf_arg \<Rightarrow> real list)) list"

text \<open>\<^verbatim>\<open>key.endswith(suffix)\<close>\<close>

definition endswith :: "string \<Rightarrow> string \<Rightarrow> bool" where
  "endswith s suffix =
     (length suffix \<le> length s \<and> drop (length s - length suffix) s = suffix)"

text \<open>\<^verbatim>\<open>numpy.mean\<close> of a non-empty list.\<close>

definition mean :: "real list \<Rightarrow> real" where
  "mean xs = sum_list xs / real (length xs)"

text \<open>
  \<^verbatim>\<open>
  poe_agg = []
  aggmatrix = agg_probs(*matrix)
  for key, fn in disagg.pmf_map.items():
      if not disagg_outputs or key in disagg_outputs:
          pmf = fn(matrix if key.endswith('TRT') else aggmatrix)
          self.datastore[disp_name + key] = pmf
          poe_agg.append(1. - numpy.prod(1. - pmf))
  \<close>
  The loop returns the arrays written to the datastore, by kind, and the list
  \<^verbatim>\<open>poe_agg\<close>, both in the order of the loop.
\<close>

fun extract_pmfs ::
  "string list \<Rightarrow> real list list \<Rightarrow> value \<Rightarrow> pmf_map \<Rightarrow> (string \<times> real list) list \<times> real list"
where
  "extract_pmfs disagg_outputs matrix aggmatrix [] = ([], [])"
| "extract_pmfs disagg_outputs matrix aggmatrix ((key, fn) # rest) =
     (case extract_pmfs disagg_outputs matrix aggmatrix rest of
        (stored, poe_agg) \<Rightarrow>
          if disagg_outputs = [] \<or> key \<in> set disagg_outputs then
            (let pmf = fn (if endswith key ''TRT'' then Stacked matrix else Composed aggmatrix)
             in ((key, pmf) # stored, (1 - prod_list (map (\<lambda>p. 1 - p) pmf)) # poe_agg))
          else (stored, poe_agg))"

text \<open>
  \<^verbatim>\<open>
  attrs = self.datastore.hdf5[disp_name].attrs
  attrs['site_id'] = site_id
  attrs['rlzi'] = rlz_id
  attrs['imt'] = imt_str
  ...
  attrs['poe_agg'] = poe_agg
  if poe:
      attrs['poe'] = poe
      poe_agg = numpy.mean(attrs['poe_agg'])
      if abs(1 - poe_agg / poe) > .1:
          logging.warning(...)
  \<close>
  The group \<^verbatim>\<open>disp_name\<close> exists only once an array was stored under it, so
  reading it is a \<^verbatim>\<open>KeyError\<close> when no PMF kind was requested. \<^verbatim>\<open>poe\<close> is
  \<^verbatim>\<open>None\<close> when intensity levels were given; \<^verbatim>\<open>if poe\<close> is false for
  \<^verbatim>\<open>None\<close> and for \<^verbatim>\<open>0.0\<close>. The display name, the coordinates of the site,
  the intensity level and the bin edges are copies of the calculator's state
  and are not part of the model. A warning records the site, the mean
  aggregate and the requested probability.
\<close>

record save_out =
  stored :: "(string \<times> real list) list"
  attr_site_id :: nat
  attr_rlzi :: nat
  attr_imt :: string
  attr_poe_agg :: "real list"
  attr_poe :: "real option"
  warnings :: "(nat \<times> real \<times> real) list"

definition truthy :: "real option \<Rightarrow> bool" where
  "truthy poe = (case poe of None \<Rightarrow> False | Some p \<Rightarrow> p \<noteq> 0)"

definition save_result ::
  "string list \<Rightarrow> pmf_map \<Rightarrow> nat \<Rightarrow> nat \<Rightarrow> real option \<Rightarrow> string \<Rightarrow> real list list \<Rightarrow>
   error + save_out"
where
  "save_result disagg_outputs pmfs site_id rlz_id poe imt_str matrix =
     (case agg_probs (map Arr matrix) of
        Inl e \<Rightarrow> Inl e
      | Inr aggmatrix \<Rightarrow>
          (case extract_pmfs disagg_outputs matrix aggmatrix pmfs of
             (st, poe_agg) \<Rightarrow>
               if st = [] then Inl KeyError
               else Inr \<lparr>stored = st,
                         attr_site_id = site_id,
                         attr_rlzi = rlz_id,
                         attr_imt = imt_str,
                         attr_poe_agg = poe_agg,
                         attr_poe = (if truthy poe then poe else None),
                         warnings =
                           (if truthy poe \<and> \<bar>1 - mean poe_agg / the poe\<bar> > 1 / 10
                            then [(site_id, mean poe_agg, the poe)] else [])\<rparr>))"


text \<open>A PMF function that returns the cells of its argument, and a PMF map of two kinds.\<close>

fun cells :: "pmf_arg \<Rightarrow> real list" where
  "cells (Stacked ms) = concat ms"
| "cells (Composed (Arr m)) = m"
| "cells (Composed (Num x)) = [x]"

definition pmf_map0 :: pmf_map where
  "pmf_map0 = [(''Mag'', cells), (''TRT'', cells)]"

definition tensor0 :: "real list list" where
  "tensor0 = [[1 / 10], [1 / 10]]"

definition out0 :: save_out where
  "out0 = \<lparr>stored = [(''Mag'', [19 / 100]), (''TRT'', [1 / 10, 1 / 10])],
            attr_site_id = 3, attr_rlzi = 0, attr_imt = ''PGA'',
            attr_poe_agg = [19 / 100, 19 / 100], attr_poe = Some (1 / 5),
            warnings = []\<rparr>"


section \<open>Validation of the requested probabilities\<close>

text \<open>
  A hazard curve (the record returned by \<^verbatim>\<open>get_curve\<close>) gives an array of
  probabilities for every intensity measure type. \<^verbatim>\<open>imtls\<close> is an ordered
  dictionary from the types to their intensity levels; iterating over it
  yields the types. The log is the list of the warnings emitted, in order.
\<close>

type_synonym curve = "string \<Rightarrow> real list"

type_synonym imtls = "(string \<times> real list) list"

datatype warning =
    PoeTooBig nat real real nat string
  | DoingDisagg

text \<open>\<^verbatim>\<open>array.max()\<close>; numpy raises \<^verbatim>\<open>ValueError\<close> on an empty array.\<close>

definition amax :: "real list \<Rightarrow> error + real" where
  "amax xs = (case xs of [] \<Rightarrow> Inl ValueError | x # rest \<Rightarrow> Inr (fold max rest x))"

text \<open>
  \<^verbatim>\<open>
  def _check_curve(sid, rlz, curve, imtls, poes_disagg):
      bad = 0
      for imt in imtls:
          max_poe = curve[imt].max()
          for poe in poes_disagg:
              if poe > max_poe:
                  logging.warning(POE_TOO_BIG, sid, poe, max_poe, rlz, imt)
                  bad += 1
      return bool(bad)
  \<close>
  The two loops thread the counter \<^verbatim>\<open>bad\<close> and the log.
\<close>

fun check_poe_loop ::
  "nat \<Rightarrow> nat \<Rightarrow> string \<Rightarrow> real \<Rightarrow> real list \<Rightarrow> nat \<times> warning list \<Rightarrow> nat \<times> warning list"
where
  "check_poe_loop sid rlz imt max_poe [] st = st"
| "check_poe_loop sid rlz imt max_poe (poe # poes) (bad, logs) =
     check_poe_loop sid rlz imt max_poe poes
       (if poe > max_poe then (bad + 1, logs @ [PoeTooBig sid poe max_poe rlz imt])
        else (bad, logs))"

fun check_imt_loop ::
  "nat \<Rightarrow> nat \<Rightarrow> curve \<Rightarrow> string list \<Rightarrow> real list \<Rightarrow> nat \<times> warning list \<Rightarrow>
   error + nat \<times> warning list"
where
  "check_imt_loop sid rlz curve [] poes_disagg st = Inr st"
| "check_imt_loop sid rlz curve (imt # imts) poes_disagg st =
     (case amax (curve imt) of
        Inl e \<Rightarrow> Inl e
      | Inr max_poe \<Rightarrow>
          check_imt_loop sid rlz curve imts poes_disagg
            (check_poe_loop sid rlz imt max_poe poes_disagg st))"

definition check_curve ::
  "nat \<Rightarrow> nat \<Rightarrow> curve \<Rightarrow> imtls \<Rightarrow> real list \<Rightarrow> error + bool \<times> warning list"
where
  "check_curve sid rlz curve imtls poes_disagg =
     (case check_imt_loop sid rlz curve (map fst imtls) poes_disagg (0, []) of
        Inl e \<Rightarrow> Inl e
      | Inr (bad, logs) \<Rightarrow> Inr (bad \<noteq> 0, logs))"

text \<open>
  \<^verbatim>\<open>
  def check_poes_disagg(self, curves, rlzs):
      oq = self.oqparam
      ok_sites = []
      for sid in self.sitecol.sids:
          if curves[sid] is None:
              ok_sites.append(sid)
              continue
          bad = _check_curve(sid, rlzs[sid], curves[sid],
                             oq.imtls, oq.poes_disagg)
          if not bad:
              ok_sites.append(sid)
      if not ok_sites:
          raise SystemExit('Cannot do any disaggregation')
      elif len(ok_sites) < self.N:
          logging.warning('Doing the disaggregation on' % self.sitecol)
      return ok_sites
  \<close>
  The calculator's state read here is a record. The format string of the last
  warning has no conversion: the \<^verbatim>\<open>%\<close> operator raises \<^verbatim>\<open>TypeError\<close> unless
  its right operand is a mapping, which depends on the class of the site
  collection (hazardlib); \<open>sitecol_is_mapping\<close> is that parameter.
\<close>

record calc =
  sids :: "nat list"
  N :: nat
  oq_imtls :: imtls
  oq_poes_disagg :: "real list"
  sitecol_is_mapping :: bool

fun ok_sites_loop ::
  "calc \<Rightarrow> curve option list \<Rightarrow> nat list \<Rightarrow> nat list \<Rightarrow> nat list \<times> warning list \<Rightarrow>
   error + nat list \<times> warning list"
where
  "ok_sites_loop c curves rlzs [] st = Inr st"
| "ok_sites_loop c curves rlzs (sid # rest) (ok_sites, logs) =
     (if length curves \<le> sid then Inl IndexError
      else
        (case curves ! sid of
           None \<Rightarrow> ok_sites_loop c curves rlzs rest (ok_sites @ [sid], logs)
         | Some curve \<Rightarrow>
             if length rlzs \<le> sid then Inl IndexError
             else
               (case check_curve sid (rlzs ! sid) curve (oq_imtls c) (oq_poes_disagg c) of
                  Inl e \<Rightarrow> Inl e
                | Inr (bad, ws) \<Rightarrow>
                    ok_sites_loop c curves rlzs rest
                      (if \<not> bad then ok_sites @ [sid] else ok_sites, logs @ ws))))"

definition check_poes_disagg ::
  "calc \<Rightarrow> curve option list \<Rightarrow> nat list \<Rightarrow> error + nat list \<times> warning list"
where
  "check_poes_disagg c curves rlzs =
     (case ok_sites_loop c curves rlzs (sids c) ([], []) of
        Inl e \<Rightarrow> Inl e
      | Inr (ok_sites, logs) \<Rightarrow>
          if ok_sites = [] then Inl (SystemExit ''Cannot do any disaggregation'')
          else if length ok_sites < N c then
            (if sitecol_is_mapping c then Inr (ok_sites, logs @ [DoingDisagg])
             else Inl TypeError)
          else Inr (ok_sites, logs))"

text \<open>
  The condition under which the specification calls a site infeasible: for
  some intensity measure type and some requested probability, the probability
  strictly exceeds the maximum of the site's curve for that type.
\<close>

definition infeasible :: "imtls \<Rightarrow> real list \<Rightarrow> curve \<Rightarrow> bool" where
  "infeasible imtls poes_disagg curve =
     (\<exists>imt \<in> fst ` set imtls. \<exists>poe \<in> set poes_disagg. poe > Max (set (curve imt)))"

text \<open>Two sites of one intensity measure type: a low curve and a high curve.\<close>

definition low_curve :: curve where
  "low_curve imt = [5 / 1000, 1 / 1000]"

definition high_curve :: curve where
  "high_curve imt = [5 / 100, 1 / 100]"

definition calc0 :: calc where
  "calc0 = \<lparr>sids = [0, 1], N = 2, oq_imtls = [(''PGA'', [1 / 10, 1 / 5])],
             oq_poes_disagg = [2 / 100], sitecol_is_mapping = True\<rparr>"

text \<open>
  The test that keeps a site, in the words of the specification: a site is ok
  unless it has a hazard curve and that curve is infeasible. \<open>site_warnings\<close>
  are the warnings of one site in closed form, and \<open>site_wf\<close> says that the
  site has an entry in \<^verbatim>\<open>curves\<close> and, when it has a curve, an entry in
  \<^verbatim>\<open>rlzs\<close> and no empty array in the curve.
\<close>

definition too_big :: "nat \<Rightarrow> nat \<Rightarrow> curve \<Rightarrow> string list \<Rightarrow> real list \<Rightarrow> warning list" where
  "too_big sid rlz curve imts poes =
     concat (map (\<lambda>imt. map (\<lambda>poe. PoeTooBig sid poe (Max (set (curve imt))) rlz imt)
                          (filter (\<lambda>poe. poe > Max (set (curve imt))) poes)) imts)"

definition site_ok :: "calc \<Rightarrow> curve option list \<Rightarrow> nat \<Rightarrow> bool" where
  "site_ok c curves sid =
     (case curves ! sid of
        None \<Rightarrow> True
      | Some curve \<Rightarrow> \<not> infeasible (oq_imtls c) (oq_poes_disagg c) curve)"

definition site_warnings :: "calc \<Rightarrow> curve option list \<Rightarrow> nat list \<Rightarrow> nat \<Rightarrow> warning list" where
  "site_warnings c curves rlzs sid =
     (case curves ! sid of
        None \<Rightarrow> []
      | Some curve \<Rightarrow>
          too_big sid (rlzs ! sid) curve (map fst (oq_imtls c)) (oq_poes_disagg c))"

definition site_wf :: "calc \<Rightarrow> curve option list \<Rightarrow> nat list \<Rightarrow> nat \<Rightarrow> bool" where
  "site_wf c curves rlzs sid =
     (sid < length curves \<and>
      (case curves ! sid of
         None \<Rightarrow> True
       | Some curve \<Rightarrow>
           sid < length rlzs \<and> (\<forall>imt \<in> fst ` set (oq_imtls c). curve imt \<noteq> [])))"

definition calc1 :: calc where
  "calc1 = \<lparr>sids = [0, 1], N = 2, oq_imtls = [(''PGA'', [1 / 10, 1 / 5])],
             oq_poes_disagg = [2 / 100], sitecol_is_mapping = False\<rparr>"

section \<open>Bin edges\<close>



text \<open>
  The bin edges of the calculator: magnitude, distance and epsilon edges are
  shared by all sites, longitude and latitude edges are dictionaries by site.
  \<^verbatim>\<open>disagg.get_bins(b, sid)\<close> (hazardlib) returns
  \<^verbatim>\<open>b[0], b[1], b[2][sid], b[3][sid], b[4]\<close>.
\<close>

record bin_edges =
  mags :: "real list"
  dists :: "real list"
  lons :: "nat \<rightharpoonup> real list"
  lats :: "nat \<rightharpoonup> real list"
  eps :: "real list"

definition get_bins :: "bin_edges \<Rightarrow> nat \<Rightarrow> error + real list list" where
  "get_bins b sid =
     (case lons b sid of
        None \<Rightarrow> Inl KeyError
      | Some lon \<Rightarrow>
          (case lats b sid of
             None \<Rightarrow> Inl KeyError
           | Some lat \<Rightarrow> Inr [mags b, dists b, lon, lat, eps b]))"

text \<open>
  \<^verbatim>\<open>
  def save_bin_edges(self):
      b = self.bin_edges
      for sid in self.sitecol.sids:
          bins = disagg.get_bins(b, sid)
          shape = [len(bin) - 1 for bin in bins] + [len(self.trts)]
          shape_dic = dict(zip(BIN_NAMES, shape))
          if sid == 0:
              logging.info('nbins=%s for site=#%d', shape_dic, sid)
          matrix_size = numpy.prod(shape)
          if matrix_size > 1E7:
              raise ValueError(
                  'The disaggregation matrix for site #%d is too large '
                  '(%d elements): fix the binnning!' % (sid, matrix_size))
      self.datastore['disagg-bins/mags'] = b[0]
      self.datastore['disagg-bins/dists'] = b[1]
      for sid in self.sitecol.sids:
          self.datastore['disagg-bins/lons/sid-%d' % sid] = b[2][sid]
          self.datastore['disagg-bins/lats/sid-%d' % sid] = b[3][sid]
      self.datastore['disagg-bins/eps'] = b[4]
  \<close>
  \<^verbatim>\<open>shape\<close> is a list of Python integers. \<^verbatim>\<open>numpy.prod\<close> turns it into an
  array of 64-bit signed integers and multiplies in that type: the product
  wraps around modulo \<open>2 ^ 64\<close>.
\<close>

definition shape_of :: "real list list \<Rightarrow> nat \<Rightarrow> int list" where
  "shape_of bins num_trts = map (\<lambda>bin. int (length bin) - 1) bins @ [int num_trts]"

definition numpy_prod :: "int list \<Rightarrow> int" where
  "numpy_prod shape = sint (prod_list (map word_of_int shape) :: 64 word)"

fun check_sizes :: "bin_edges \<Rightarrow> nat \<Rightarrow> nat list \<Rightarrow> error + unit" where
  "check_sizes b num_trts [] = Inr ()"
| "check_sizes b num_trts (sid # rest) =
     (case get_bins b sid of
        Inl e \<Rightarrow> Inl e
      | Inr bins \<Rightarrow>
          (let matrix_size = numpy_prod (shape_of bins num_trts) in
           if matrix_size > 10 ^ 7 then Inl (MatrixTooLarge sid matrix_size)
           else check_sizes b num_trts rest))"

datatype bins_key = Mags | Dists | Lons nat | Lats nat | Eps

fun store_lons_lats :: "bin_edges \<Rightarrow> nat list \<Rightarrow> error + (bins_key \<times> real list) list" where
  "store_lons_lats b [] = Inr []"
| "store_lons_lats b (sid # rest) =
     (case lons b sid of
        None \<Rightarrow> Inl KeyError
      | Some lon \<Rightarrow>
          (case lats b sid of
             None \<Rightarrow> Inl KeyError
           | Some lat \<Rightarrow>
               (case store_lons_lats b rest of
                  Inl e \<Rightarrow> Inl e
                | Inr writes \<Rightarrow> Inr ((Lons sid, lon) # (Lats sid, lat) # writes))))"

text \<open>The result is the list of the arrays written to the datastore, in order.\<close>

definition save_bin_edges ::
  "bin_edges \<Rightarrow> nat \<Rightarrow> nat list \<Rightarrow> error + (bins_key \<times> real list) list"
where
  "save_bin_edges b num_trts site_ids =
     (case check_sizes b num_trts site_ids of
        Inl e \<Rightarrow> Inl e
      | Inr _ \<Rightarrow>
          (case store_lons_lats b site_ids of
             Inl e \<Rightarrow> Inl e
           | Inr writes \<Rightarrow>
               Inr ([(Mags, mags b), (Dists, dists b)] @ writes @ [(Eps, eps b)])))"

text \<open>
  A binning with 2048 magnitude bins, 2048 distance bins, 8192 longitude,
  latitude and epsilon bins each, for one site.
\<close>

definition edges :: "nat \<Rightarrow> real list" where
  "edges n = map real [0..<Suc n]"

definition fine_edges :: bin_edges where
  "fine_edges = \<lparr>mags = edges 2048, dists = edges 2048,
                  lons = [0 \<mapsto> edges 8192], lats = [0 \<mapsto> edges 8192],
                  eps = edges 8192\<rparr>"


section \<open>Cross-task aggregation: proofs\<close>









lemma map2_mult_assoc:
  "length xs = length ys \<Longrightarrow> length ys = length zs \<Longrightarrow>
   map2 (\<lambda>x y. x * y) (map2 (\<lambda>x y. x * y) xs ys) zs =
   map2 (\<lambda>x y. x * y) xs (map2 (\<lambda>x y. x * (y::real)) ys zs)"
  by (induction xs ys zs rule: list_induct3) (simp_all add: mult.assoc)









lemma fold_entry_step_append:
  "fold entry_step (xs @ ys) s = fold entry_step ys (fold entry_step xs s)"
  by simp





lemma inner_upd: "inner (acc(k \<mapsto> d)) k' = (if k' = k then d else inner acc k')"
  by (simp add: inner_def)

















section \<open>Densification: proofs\<close>


lemma assign_rows_spec:
  assumes "distinct (map fst ms)"
    and "\<forall>(t, m) \<in> set ms. t < length mat \<and> length m = n"
    and "\<forall>row \<in> set mat. length row = n"
  shows "\<exists>mat'. assign_rows mat ms = Inr mat' \<and> length mat' = length mat \<and>
           (\<forall>row \<in> set mat'. length row = n) \<and>
           (\<forall>(t, m) \<in> set ms. mat' ! t = m) \<and>
           (\<forall>t. t \<notin> fst ` set ms \<longrightarrow> mat' ! t = mat ! t)"
  using assms
proof (induction ms arbitrary: mat)
  case Nil
  then show ?case by simp
next
  case (Cons p ms)
  obtain t m where p: "p = (t, m)" by (cases p)
  from Cons.prems p have t: "t < length mat" and m: "length m = n"
    and notin: "t \<notin> fst ` set ms" and d: "distinct (map fst ms)"
    by auto
  have rows: "\<forall>row \<in> set (mat[t := m]). length row = n"
    using Cons.prems(3) m by (auto dest!: set_update_subset_insert [THEN subsetD])
  have bnd: "\<forall>(t', m') \<in> set ms. t' < length (mat[t := m]) \<and> length m' = n"
    using Cons.prems(2) by auto
  from Cons.IH [OF d bnd rows] obtain mat' where
    r: "assign_rows (mat[t := m]) ms = Inr mat'" and
    l: "length mat' = length (mat[t := m])" and
    rw: "\<forall>row \<in> set mat'. length row = n" and
    hit: "\<forall>(t', m') \<in> set ms. mat' ! t' = m'" and
    miss: "\<forall>t'. t' \<notin> fst ` set ms \<longrightarrow> mat' ! t' = mat[t := m] ! t'"
    by blast
  have here: "length m = length (mat ! t)"
    using Cons.prems(3) t m by simp
  have "assign_rows mat (p # ms) = Inr mat'"
    using r t here by (simp add: p)
  moreover have "mat' ! t = m"
    using miss notin t by simp
  moreover have "\<forall>t'. t' \<notin> fst ` set (p # ms) \<longrightarrow> mat' ! t' = mat ! t'"
    using miss by (auto simp: p)
  ultimately show ?case
    using l rw hit by (auto simp: p)
qed

lemma to_matrix_spec:
  assumes "matrices \<noteq> []" and "distinct (map fst matrices)"
    and "\<forall>(t, m) \<in> set matrices. t < T \<and> length m = n"
  shows "\<exists>mat. to_matrix matrices T = Inr mat \<and> length mat = T \<and>
           (\<forall>row \<in> set mat. length row = n) \<and>
           (\<forall>(t, m) \<in> set matrices. mat ! t = m) \<and>
           (\<forall>t < T. t \<notin> fst ` set matrices \<longrightarrow> mat ! t = replicate n 0)"
proof -
  obtain t0 m0 rest where ms: "matrices = (t0, m0) # rest"
    using assms(1) by (cases matrices) auto
  have n: "length m0 = n"
    using assms(3) ms by auto
  let ?z = "replicate T (replicate n (0::real))"
  have "\<forall>(t, m) \<in> set matrices. t < length ?z \<and> length m = n"
    using assms(3) by auto
  moreover have "\<forall>row \<in> set ?z. length row = n"
    by simp
  ultimately obtain mat where
    "assign_rows ?z matrices = Inr mat" "length mat = length ?z"
    "\<forall>row \<in> set mat. length row = n"
    "\<forall>(t, m) \<in> set matrices. mat ! t = m"
    "\<forall>t. t \<notin> fst ` set matrices \<longrightarrow> mat ! t = ?z ! t"
    using assign_rows_spec [OF assms(2), of ?z n] by blast
  then show ?thesis
    by (auto simp: to_matrix_def ms n)
qed

lemma agg_entries_other_trti:
  "agg_entries t acc kvs = Inr acc' \<Longrightarrow> t' \<noteq> t \<Longrightarrow> inner acc' k t' = inner acc k t'"
proof (induction t acc kvs rule: agg_entries.induct)
  case (1 t acc)
  then show ?case by simp
next
  case (2 t acc k0 val kvs)
  from "2.prems"(1) obtain m where
    m: "agg_probs [get_or_zero (inner acc k0) t, val] = Inr m" and
    rest: "agg_entries t (acc(k0 \<mapsto> (inner acc k0)(t \<mapsto> m))) kvs = Inr acc'"
    by (auto split: sum.splits simp del: agg_probs.simps)
  have "inner acc' k t' = inner (acc(k0 \<mapsto> (inner acc k0)(t \<mapsto> m))) k t'"
    by (rule "2.IH" [OF m rest "2.prems"(2)])
  then show ?case
    using "2.prems"(2) by (simp add: inner_upd)
qed

text \<open>
  Claim C6. For a non-empty dictionary \<^verbatim>\<open>trti -> matrix\<close> whose matrices all
  have one shape and whose keys are all below \<open>T\<close>, \<^verbatim>\<open>_to_matrix\<close> returns a
  tensor of \<open>T\<close> slices of that shape; the slice at every key present is the
  matrix stored under that key, and the slice at every absent TRT index is
  identically zero. In \<^verbatim>\<open>agg_result\<close> a task result of one TRT index leaves
  the matrices stored under every other TRT index untouched.
\<close>

theorem to_matrix_stacks:
  "(matrices \<noteq> [] \<and> distinct (map fst matrices) \<and>
    (\<forall>(t, m) \<in> set matrices. t < T \<and> length m = n) \<longrightarrow>
      (\<exists>mat. to_matrix matrices T = Inr mat \<and> length mat = T \<and>
         (\<forall>row \<in> set mat. length row = n) \<and>
         (\<forall>(t, m) \<in> set matrices. mat ! t = m) \<and>
         (\<forall>t < T. t \<notin> fst ` set matrices \<longrightarrow> mat ! t = replicate n 0))) \<and>
   (agg_result acc r = Inr acc' \<and> t' \<noteq> trti r \<longrightarrow> inner acc' k t' = inner acc k t')"
  using to_matrix_spec [of matrices T n]
    agg_entries_other_trti [of "trti r" acc "entries r" acc' t' k]
  by (simp add: agg_result_def)

theorem to_matrix_stacks_witness:
  "to_matrix matrices0 3 = Inr [[3 / 10, 0], [0, 0], [1 / 10, 1 / 5]]"
proof -
  have "matrices0 \<noteq> [] \<and> distinct (map fst matrices0) \<and>
    (\<forall>(t, m) \<in> set matrices0. t < 3 \<and> length m = 2)"
    by (simp add: matrices0_def)
  with to_matrix_stacks [of matrices0 3 2] obtain mat where
    "to_matrix matrices0 3 = Inr mat" by blast
  then show ?thesis
    by (simp add: to_matrix_def matrices0_def numeral_3_eq_3)
qed


section \<open>PMF extraction: proofs\<close>



lemma extract_pmfs_stored:
  "distinct (map fst pmfs) \<Longrightarrow> (key, fn) \<in> set pmfs \<Longrightarrow> outs = [] \<or> key \<in> set outs \<Longrightarrow>
   map_of (fst (extract_pmfs outs matrix agg pmfs)) key =
     Some (fn (if endswith key ''TRT'' then Stacked matrix else Composed agg))"
proof (induction outs matrix agg pmfs rule: extract_pmfs.induct)
  case (1 outs matrix agg)
  then show ?case by simp
next
  case (2 outs matrix agg key' fn' rest)
  obtain st pa where e: "extract_pmfs outs matrix agg rest = (st, pa)"
    by (cases "extract_pmfs outs matrix agg rest")
  show ?case
  proof (cases "key = key'")
    case True
    with "2.prems" have "fn = fn'"
      by (auto simp: image_iff)
    with True "2.prems"(3) e show ?thesis
      by (simp add: Let_def)
  next
    case False
    with "2.prems" have "distinct (map fst rest)" "(key, fn) \<in> set rest" by auto
    from "2.IH" [OF this "2.prems"(3)] False e show ?thesis
      by (simp add: Let_def)
  qed
qed




lemma save_result_Inr:
  assumes "save_result outs pmfs site_id rlz_id poe imt_str matrix = Inr out"
  obtains agg where "agg_probs (map Arr matrix) = Inr agg"
    and "stored out = fst (extract_pmfs outs matrix agg pmfs)"
    and "attr_poe_agg out = snd (extract_pmfs outs matrix agg pmfs)"
    and "attr_poe out = (if truthy poe then poe else None)"
    and "warnings out =
           (if truthy poe \<and> \<bar>1 - mean (attr_poe_agg out) / the poe\<bar> > 1 / 10
            then [(site_id, mean (attr_poe_agg out), the poe)] else [])"
  using assms unfolding save_result_def
  by (auto split: sum.splits prod.splits if_splits)

text \<open>
  Claim C2 (as amended). In \<^verbatim>\<open>_save_result\<close>, for every requested PMF kind: a
  kind whose name ends with \<^verbatim>\<open>TRT\<close> is computed from the TRT-stacked tensor
  directly, without composing across TRT; every other kind is computed from the
  matrix obtained by composing the TRT slices with \<^verbatim>\<open>agg_probs\<close>, so for
  those kinds the TRT axis is marginalised by complementary-probability
  composition.
\<close>

theorem save_result_pmf_input:
  "distinct (map fst pmfs) \<and> (key, fn) \<in> set pmfs \<and>
   (disagg_outputs = [] \<or> key \<in> set disagg_outputs) \<and>
   save_result disagg_outputs pmfs site_id rlz_id poe imt_str matrix = Inr out \<longrightarrow>
     (endswith key ''TRT'' \<longrightarrow> map_of (stored out) key = Some (fn (Stacked matrix))) \<and>
     (\<not> endswith key ''TRT'' \<longrightarrow>
        (\<exists>agg. agg_probs (map Arr matrix) = Inr agg \<and>
           map_of (stored out) key = Some (fn (Composed agg))))"
proof (intro impI, elim conjE)
  assume d: "distinct (map fst pmfs)" and k: "(key, fn) \<in> set pmfs"
    and req: "disagg_outputs = [] \<or> key \<in> set disagg_outputs"
    and s: "save_result disagg_outputs pmfs site_id rlz_id poe imt_str matrix = Inr out"
  from s obtain agg where agg: "agg_probs (map Arr matrix) = Inr agg"
    and st: "stored out = fst (extract_pmfs disagg_outputs matrix agg pmfs)"
    by (rule save_result_Inr)
  have "map_of (stored out) key =
      Some (fn (if endswith key ''TRT'' then Stacked matrix else Composed agg))"
    unfolding st by (rule extract_pmfs_stored [OF d k req])
  with agg show "(endswith key ''TRT'' \<longrightarrow> map_of (stored out) key = Some (fn (Stacked matrix))) \<and>
     (\<not> endswith key ''TRT'' \<longrightarrow>
        (\<exists>agg. agg_probs (map Arr matrix) = Inr agg \<and>
           map_of (stored out) key = Some (fn (Composed agg))))"
    by auto
qed

lemma save_result_tensor0:
  "save_result [] pmf_map0 3 0 (Some (1 / 5)) ''PGA'' tensor0 = Inr out0"
  by (simp add: save_result_def pmf_map0_def tensor0_def out0_def endswith_def truthy_def
      mean_def)


theorem save_result_pmf_input_witness:
  "map_of (stored out0) ''TRT'' = Some (cells (Stacked tensor0)) \<and>
   (\<exists>agg. agg_probs (map Arr tensor0) = Inr agg \<and>
      map_of (stored out0) ''Mag'' = Some (cells (Composed agg)))"
proof -
  have d: "distinct (map fst pmf_map0)"
    by (simp add: pmf_map0_def)
  have "map_of (stored out0) ''TRT'' = Some (cells (Stacked tensor0))"
    using save_result_pmf_input [of pmf_map0 "''TRT''" cells "[]" 3 0 "Some (1 / 5)" "''PGA''"
        tensor0 out0] d save_result_tensor0
    by (simp add: pmf_map0_def endswith_def)
  moreover have "\<exists>agg. agg_probs (map Arr tensor0) = Inr agg \<and>
      map_of (stored out0) ''Mag'' = Some (cells (Composed agg))"
    using save_result_pmf_input [of pmf_map0 "''Mag''" cells "[]" 3 0 "Some (1 / 5)" "''PGA''"
        tensor0 out0] d save_result_tensor0
    by (simp add: pmf_map0_def endswith_def)
  ultimately show ?thesis by simp
qed

text \<open>
  Claim C2 as stated says that the TRT axis is never marginalised by
  composition for any requested PMF kind. With two TRT slices that each hold
  0.1, the kind \<^verbatim>\<open>Mag\<close> is computed from the composed matrix, whose cell is
  0.19, and not from the stacked tensor.
\<close>

theorem save_result_composes_trt_counterexample:
  "save_result [] pmf_map0 3 0 (Some (1 / 5)) ''PGA'' tensor0 = Inr out0 \<and>
   agg_probs (map Arr tensor0) = Inr (Arr [19 / 100]) \<and>
   map_of (stored out0) ''Mag'' = Some (cells (Composed (Arr [19 / 100]))) \<and>
   map_of (stored out0) ''Mag'' \<noteq> Some (cells (Stacked tensor0))"
  by (simp add: save_result_tensor0) (simp add: tensor0_def out0_def)





section \<open>Validation of the requested probabilities: proofs\<close>


lemma amax_Max: "xs \<noteq> [] \<Longrightarrow> amax xs = Inr (Max (set xs))"
  by (cases xs) (simp_all add: amax_def Max.set_eq_fold [symmetric])

lemma amax_empty: "amax [] = Inl ValueError"
  by (simp add: amax_def)

lemma check_poe_loop_eq:
  "check_poe_loop sid rlz imt max_poe poes (bad, logs) =
     (bad + length (filter (\<lambda>poe. poe > max_poe) poes),
      logs @ map (\<lambda>poe. PoeTooBig sid poe max_poe rlz imt) (filter (\<lambda>poe. poe > max_poe) poes))"
  by (induction poes arbitrary: bad logs) simp_all

lemma check_imt_loop_Inr:
  "check_imt_loop sid rlz curve imts poes st = Inr st' \<Longrightarrow> \<forall>imt \<in> set imts. curve imt \<noteq> []"
proof (induction imts arbitrary: st)
  case Nil
  then show ?case by simp
next
  case (Cons imt imts)
  from Cons.prems obtain m where m: "amax (curve imt) = Inr m"
    and rest: "check_imt_loop sid rlz curve imts poes (check_poe_loop sid rlz imt m poes st) = Inr st'"
    by (auto split: sum.splits)
  from m have "curve imt \<noteq> []"
    by (auto simp: amax_empty)
  with Cons.IH [OF rest] show ?case by simp
qed

lemma check_imt_loop_error:
  "check_imt_loop sid rlz curve imts poes st = Inl e \<Longrightarrow> e = ValueError"
proof (induction imts arbitrary: st)
  case Nil
  then show ?case by simp
next
  case (Cons imt imts)
  show ?case
  proof (cases "curve imt = []")
    case True
    with Cons.prems show ?thesis by (simp add: amax_empty)
  next
    case False
    with Cons.prems Cons.IH show ?thesis
      by (simp add: amax_Max)
  qed
qed

lemma check_imt_loop_eq:
  "\<forall>imt \<in> set imts. curve imt \<noteq> [] \<Longrightarrow>
   check_imt_loop sid rlz curve imts poes (bad, logs) =
     Inr (bad + length (too_big sid rlz curve imts poes),
          logs @ too_big sid rlz curve imts poes)"
proof (induction imts arbitrary: bad logs)
  case Nil
  then show ?case by (simp add: too_big_def)
next
  case (Cons imt imts)
  then have ne: "curve imt \<noteq> []" and rest: "\<forall>imt \<in> set imts. curve imt \<noteq> []"
    by simp_all
  show ?case
    using Cons.IH [OF rest] by (simp add: amax_Max [OF ne] check_poe_loop_eq too_big_def)
qed

lemma too_big_empty:
  "too_big sid rlz curve (map fst imtls) poes = [] \<longleftrightarrow> \<not> infeasible imtls poes curve"
  by (auto simp: too_big_def infeasible_def filter_empty_conv)

lemma too_big_member:
  "w \<in> set (too_big sid rlz curve imts poes) \<Longrightarrow>
   \<exists>poe max_poe imt. w = PoeTooBig sid poe max_poe rlz imt"
  by (auto simp: too_big_def)

lemma check_curve_eq:
  "\<forall>imt \<in> fst ` set imtls. curve imt \<noteq> [] \<Longrightarrow>
   check_curve sid rlz curve imtls poes =
     Inr (infeasible imtls poes curve, too_big sid rlz curve (map fst imtls) poes)"
  using too_big_empty [of sid rlz curve imtls poes]
  by (simp add: check_curve_def check_imt_loop_eq)

lemma check_curve_Inr:
  "check_curve sid rlz curve imtls poes = Inr r \<Longrightarrow> \<forall>imt \<in> fst ` set imtls. curve imt \<noteq> []"
  using check_imt_loop_Inr [of sid rlz curve "map fst imtls" poes "(0, [])"]
  by (auto simp: check_curve_def split: sum.splits)

lemma check_curve_error:
  "check_curve sid rlz curve imtls poes = Inl e \<Longrightarrow> e = ValueError"
  using check_imt_loop_error [of sid rlz curve "map fst imtls" poes "(0, [])"]
  by (auto simp: check_curve_def split: sum.splits)

lemma ok_sites_loop_eq:
  "\<forall>sid \<in> set ss. site_wf c curves rlzs sid \<Longrightarrow>
   ok_sites_loop c curves rlzs ss (ok, logs) =
     Inr (ok @ filter (site_ok c curves) ss,
          logs @ concat (map (site_warnings c curves rlzs) ss))"
proof (induction ss arbitrary: ok logs)
  case Nil
  then show ?case by simp
next
  case (Cons sid ss)
  then have wf: "site_wf c curves rlzs sid" and rest: "\<forall>sid \<in> set ss. site_wf c curves rlzs sid"
    by simp_all
  note IH = Cons.IH [OF rest]
  show ?case
  proof (cases "curves ! sid")
    case None
    then show ?thesis
      using wf IH by (simp add: site_wf_def site_ok_def site_warnings_def)
  next
    case (Some curve)
    with wf have r: "sid < length rlzs" and ne: "\<forall>imt \<in> fst ` set (oq_imtls c). curve imt \<noteq> []"
      and l: "sid < length curves"
      by (simp_all add: site_wf_def)
    show ?thesis
      using Some r l IH
      by (simp add: check_curve_eq [OF ne] site_ok_def site_warnings_def)
  qed
qed

lemma ok_sites_loop_Inr:
  "ok_sites_loop c curves rlzs ss st = Inr st' \<Longrightarrow> \<forall>sid \<in> set ss. site_wf c curves rlzs sid"
proof (induction ss arbitrary: st)
  case Nil
  then show ?case by simp
next
  case (Cons sid ss)
  obtain ok logs where st: "st = (ok, logs)" by (cases st)
  from Cons.prems have l: "sid < length curves"
    by (auto simp: st split: if_splits)
  show ?case
  proof (cases "curves ! sid")
    case None
    with Cons.prems l have "ok_sites_loop c curves rlzs ss (ok @ [sid], logs) = Inr st'"
      by (simp add: st)
    from Cons.IH [OF this] None l show ?thesis
      by (simp add: site_wf_def)
  next
    case (Some curve)
    from Cons.prems Some l have r: "sid < length rlzs"
      by (auto simp: st split: if_splits)
    from Cons.prems Some l r obtain bad ws where
      cc: "check_curve sid (rlzs ! sid) curve (oq_imtls c) (oq_poes_disagg c) = Inr (bad, ws)" and
      rest: "ok_sites_loop c curves rlzs ss
               (if \<not> bad then ok @ [sid] else ok, logs @ ws) = Inr st'"
      by (auto simp: st split: sum.splits)
    from check_curve_Inr [OF cc] Cons.IH [OF rest] Some l r show ?thesis
      by (simp add: site_wf_def)
  qed
qed

lemma ok_sites_loop_error:
  "ok_sites_loop c curves rlzs ss st = Inl e \<Longrightarrow> e = IndexError \<or> e = ValueError"
proof (induction ss arbitrary: st)
  case Nil
  then show ?case by simp
next
  case (Cons sid ss)
  obtain ok logs where st: "st = (ok, logs)" by (cases st)
  show ?case
    using Cons.prems Cons.IH
    by (auto simp: st split: if_splits option.splits sum.splits dest: check_curve_error)
qed


lemma ok_sites_loop_result:
  assumes "ok_sites_loop c curves rlzs (sids c) ([], []) = Inr (ok, logs)"
  shows "ok = filter (site_ok c curves) (sids c)"
    and "logs = concat (map (site_warnings c curves rlzs) (sids c))"
  using ok_sites_loop_eq [OF ok_sites_loop_Inr [OF assms], of "[]" "[]"] assms
  by simp_all

lemma flagged_site_warned:
  assumes "sid \<in> set ss" and "\<not> site_ok c curves sid"
  shows "\<exists>poe max_poe imt.
           PoeTooBig sid poe max_poe (rlzs ! sid) imt \<in>
             set (concat (map (site_warnings c curves rlzs) ss))"
proof -
  from assms(2) obtain curve where cv: "curves ! sid = Some curve"
    and inf: "infeasible (oq_imtls c) (oq_poes_disagg c) curve"
    by (auto simp: site_ok_def split: option.splits)
  let ?ws = "too_big sid (rlzs ! sid) curve (map fst (oq_imtls c)) (oq_poes_disagg c)"
  from inf have "?ws \<noteq> []"
    by (simp add: too_big_empty)
  then obtain w where w: "w \<in> set ?ws"
    by (cases ?ws) auto
  from too_big_member [OF w] obtain poe max_poe imt where
    "w = PoeTooBig sid poe max_poe (rlzs ! sid) imt" by blast
  with w cv assms(1) show ?thesis
    by (auto simp: site_warnings_def intro!: exI bexI [of _ sid])
qed

lemma site_ok_iff:
  "\<not> site_ok c curves sid \<longleftrightarrow>
     (\<exists>curve. curves ! sid = Some curve \<and>
        infeasible (oq_imtls c) (oq_poes_disagg c) curve)"
  by (simp add: site_ok_def split: option.splits)

text \<open>
  The outcome of \<^verbatim>\<open>check_poes_disagg\<close> in closed form, for sites that have
  their entries: the ok sites are the sites that pass the test, in order.
\<close>

lemma check_poes_disagg_eq:
  assumes "\<forall>sid \<in> set (sids c). site_wf c curves rlzs sid"
  shows "check_poes_disagg c curves rlzs =
     (let ok = filter (site_ok c curves) (sids c);
          logs = concat (map (site_warnings c curves rlzs) (sids c))
      in if ok = [] then Inl (SystemExit ''Cannot do any disaggregation'')
         else if length ok < N c then
           (if sitecol_is_mapping c then Inr (ok, logs @ [DoingDisagg]) else Inl TypeError)
         else Inr (ok, logs))"
  using ok_sites_loop_eq [OF assms, of "[]" "[]"]
  by (simp add: check_poes_disagg_def Let_def)

lemma check_poes_disagg_Inr:
  assumes "check_poes_disagg c curves rlzs = Inr (ok, logs)"
  shows "ok = filter (site_ok c curves) (sids c)" and "ok \<noteq> []"
    and "\<forall>sid \<in> set (sids c). site_wf c curves rlzs sid"
    and "set (concat (map (site_warnings c curves rlzs) (sids c))) \<subseteq> set logs"
proof -
  from assms obtain ok' logs' where
    loop: "ok_sites_loop c curves rlzs (sids c) ([], []) = Inr (ok', logs')"
    by (auto simp: check_poes_disagg_def split: sum.splits)
  note r = ok_sites_loop_result [OF loop]
  from assms loop have ok: "ok = ok'" and ne: "ok' \<noteq> []" and lg: "set logs' \<subseteq> set logs"
    by (auto simp: check_poes_disagg_def split: if_splits)
  show "ok = filter (site_ok c curves) (sids c)"
    using ok r(1) by simp
  show "ok \<noteq> []"
    using ok ne by simp
  show "\<forall>sid \<in> set (sids c). site_wf c curves rlzs sid"
    by (rule ok_sites_loop_Inr [OF loop])
  show "set (concat (map (site_warnings c curves rlzs) (sids c))) \<subseteq> set logs"
    using lg r(2) by simp
qed

text \<open>
  Claim C3. In probability mode \<^verbatim>\<open>check_poes_disagg\<close> returns, as the ok sites,
  exactly the sites that are not flagged, and a site is flagged exactly when it
  has a hazard curve and, for some intensity measure type and some requested
  probability, that probability strictly exceeds the maximum of the curve for
  that type; every flagged site has a warning in the log. Flagging is not
  fatal: when every site has its entries in \<^verbatim>\<open>curves\<close> and \<^verbatim>\<open>rlzs\<close>, no curve
  is empty and the \<^verbatim>\<open>%\<close> operator accepts the site collection, the call
  returns as soon as one site is ok, and it raises \<^verbatim>\<open>SystemExit\<close> (with the
  message that no disaggregation can be done) if and only if no site is ok.
  In every case \<^verbatim>\<open>SystemExit\<close> is raised if and only if the loop over the
  sites ends with an empty list of ok sites.
\<close>

theorem check_poes_disagg_flags:
  "(check_poes_disagg c curves rlzs = Inr (ok, logs) \<longrightarrow>
      ok = filter (site_ok c curves) (sids c) \<and>
      (\<forall>sid \<in> set (sids c).
         sid \<notin> set ok \<longleftrightarrow>
           (\<exists>curve. curves ! sid = Some curve \<and>
              infeasible (oq_imtls c) (oq_poes_disagg c) curve)) \<and>
      (\<forall>sid \<in> set (sids c).
         sid \<notin> set ok \<longrightarrow>
           (\<exists>poe max_poe imt. PoeTooBig sid poe max_poe (rlzs ! sid) imt \<in> set logs))) \<and>
   ((\<forall>sid \<in> set (sids c). site_wf c curves rlzs sid) \<longrightarrow>
      (check_poes_disagg c curves rlzs = Inl (SystemExit ''Cannot do any disaggregation'')
         \<longleftrightarrow> (\<forall>sid \<in> set (sids c). \<exists>curve. curves ! sid = Some curve \<and>
                infeasible (oq_imtls c) (oq_poes_disagg c) curve)) \<and>
      ((\<exists>sid \<in> set (sids c). site_ok c curves sid) \<and>
       (sitecol_is_mapping c \<or> N c \<le> length (filter (site_ok c curves) (sids c))) \<longrightarrow>
         (\<exists>logs. check_poes_disagg c curves rlzs =
                   Inr (filter (site_ok c curves) (sids c), logs)))) \<and>
   ((\<exists>msg. check_poes_disagg c curves rlzs = Inl (SystemExit msg)) \<longleftrightarrow>
      (\<exists>logs. ok_sites_loop c curves rlzs (sids c) ([], []) = Inr ([], logs)))"
proof (intro conjI impI)
  assume r: "check_poes_disagg c curves rlzs = Inr (ok, logs)"
  note ok = check_poes_disagg_Inr(1) [OF r] and lg = check_poes_disagg_Inr(4) [OF r]
  show "ok = filter (site_ok c curves) (sids c)"
    by (rule ok)
  show "\<forall>sid \<in> set (sids c).
         sid \<notin> set ok \<longleftrightarrow>
           (\<exists>curve. curves ! sid = Some curve \<and>
              infeasible (oq_imtls c) (oq_poes_disagg c) curve)"
    using site_ok_iff [of c curves] by (auto simp: ok)
  show "\<forall>sid \<in> set (sids c).
         sid \<notin> set ok \<longrightarrow>
           (\<exists>poe max_poe imt. PoeTooBig sid poe max_poe (rlzs ! sid) imt \<in> set logs)"
  proof (intro ballI impI)
    fix sid
    assume "sid \<in> set (sids c)" and "sid \<notin> set ok"
    then have "sid \<in> set (sids c)" and "\<not> site_ok c curves sid"
      by (auto simp: ok)
    from flagged_site_warned [OF this, of rlzs] lg
    show "\<exists>poe max_poe imt. PoeTooBig sid poe max_poe (rlzs ! sid) imt \<in> set logs"
      by blast
  qed
next
  assume wf: "\<forall>sid \<in> set (sids c). site_wf c curves rlzs sid"
  show "check_poes_disagg c curves rlzs = Inl (SystemExit ''Cannot do any disaggregation'')
         \<longleftrightarrow> (\<forall>sid \<in> set (sids c). \<exists>curve. curves ! sid = Some curve \<and>
                infeasible (oq_imtls c) (oq_poes_disagg c) curve)"
    using site_ok_iff [of c curves]
    by (auto simp: check_poes_disagg_eq [OF wf] Let_def filter_empty_conv)
next
  assume wf: "\<forall>sid \<in> set (sids c). site_wf c curves rlzs sid"
    and h: "(\<exists>sid \<in> set (sids c). site_ok c curves sid) \<and>
       (sitecol_is_mapping c \<or> N c \<le> length (filter (site_ok c curves) (sids c)))"
  then have "filter (site_ok c curves) (sids c) \<noteq> []"
    by (auto simp: filter_empty_conv)
  with h show "\<exists>logs. check_poes_disagg c curves rlzs =
                   Inr (filter (site_ok c curves) (sids c), logs)"
    by (auto simp: check_poes_disagg_eq [OF wf] Let_def)
next
  show "(\<exists>msg. check_poes_disagg c curves rlzs = Inl (SystemExit msg)) \<longleftrightarrow>
      (\<exists>logs. ok_sites_loop c curves rlzs (sids c) ([], []) = Inr ([], logs))"
  proof (cases "ok_sites_loop c curves rlzs (sids c) ([], [])")
    case (Inl e)
    with ok_sites_loop_error [OF Inl] show ?thesis
      by (auto simp: check_poes_disagg_def)
  next
    case (Inr st)
    then show ?thesis
      by (cases st) (auto simp: check_poes_disagg_def)
  qed
qed

text \<open>
  A site whose curve reaches at most 0.005 is flagged for the requested
  probability 0.02; a site whose curve reaches 0.05 is kept, and the call
  returns that site alone.
\<close>

lemma check_two_curves:
  "check_poes_disagg calc0 [Some low_curve, Some high_curve] [0, 0] =
     Inr ([1], [PoeTooBig 0 (2 / 100) (5 / 1000) 0 ''PGA'', DoingDisagg])"
  by (simp add: check_poes_disagg_def calc0_def check_curve_def amax_def low_curve_def
      high_curve_def)

lemma low_curve_infeasible:
  "infeasible [(''PGA'', [1 / 10, 1 / 5])] [2 / 100] low_curve"
  unfolding infeasible_def
  by (rule bexI [of _ "''PGA''"], rule bexI [of _ "2 / 100"]) (simp_all add: low_curve_def)

theorem check_poes_disagg_flags_witness:
  "check_poes_disagg calc0 [Some low_curve, Some high_curve] [0, 0] =
     Inr ([1], [PoeTooBig 0 (2 / 100) (5 / 1000) 0 ''PGA'', DoingDisagg]) \<and>
   [1] = filter (site_ok calc0 [Some low_curve, Some high_curve]) (sids calc0) \<and>
   (0 \<notin> set [1::nat] \<longleftrightarrow>
      (\<exists>curve. [Some low_curve, Some high_curve] ! 0 = Some curve \<and>
         infeasible (oq_imtls calc0) (oq_poes_disagg calc0) curve))"
proof -
  note t = check_poes_disagg_flags [of calc0 "[Some low_curve, Some high_curve]" "[0, 0]"
      "[1]" "[PoeTooBig 0 (2 / 100) (5 / 1000) 0 ''PGA'', DoingDisagg]",
      THEN conjunct1, THEN mp, OF check_two_curves]
  have a: "[1] = filter (site_ok calc0 [Some low_curve, Some high_curve]) (sids calc0)"
    by (rule t [THEN conjunct1])
  have "0 \<in> set (sids calc0)"
    by (simp add: calc0_def)
  from t [THEN conjunct2, THEN conjunct1, rule_format, OF this]
  have b: "0 \<notin> set [1::nat] \<longleftrightarrow>
      (\<exists>curve. [Some low_curve, Some high_curve] ! 0 = Some curve \<and>
         infeasible (oq_imtls calc0) (oq_poes_disagg calc0) curve)" .
  from check_two_curves a b show ?thesis by blast
qed

text \<open>
  With a site collection that the \<^verbatim>\<open>%\<close> operator rejects, the same input ends
  in \<^verbatim>\<open>TypeError\<close>: the warning about the excluded sites cannot be formatted.
\<close>

lemma check_two_curves_not_mapping:
  "check_poes_disagg calc1 [Some low_curve, Some high_curve] [0, 0] = Inl TypeError"
  by (simp add: check_poes_disagg_def calc1_def check_curve_def amax_def low_curve_def
      high_curve_def)

text \<open>
  Claim C10. A site whose curve lookup returned \<^verbatim>\<open>None\<close> is put among the ok
  sites without any check against the requested probabilities. With such a
  site \<^verbatim>\<open>check_poes_disagg\<close> never raises \<^verbatim>\<open>SystemExit\<close>, whatever the curves
  of the other sites are, and whenever it returns, the site is in the result.
\<close>

theorem none_curve_site_is_ok:
  "sid \<in> set (sids c) \<and> curves ! sid = None \<longrightarrow>
     (\<forall>msg. check_poes_disagg c curves rlzs \<noteq> Inl (SystemExit msg)) \<and>
     (\<forall>ok logs. check_poes_disagg c curves rlzs = Inr (ok, logs) \<longrightarrow> sid \<in> set ok) \<and>
     (\<forall>ok logs. ok_sites_loop c curves rlzs (sids c) ([], []) = Inr (ok, logs) \<longrightarrow>
        sid \<in> set ok)"
proof (intro impI, elim conjE)
  assume sid: "sid \<in> set (sids c)" and none: "curves ! sid = None"
  have loop: "sid \<in> set ok"
    if "ok_sites_loop c curves rlzs (sids c) ([], []) = Inr (ok, logs)" for ok logs
    using ok_sites_loop_result(1) [OF that] sid none by (simp add: site_ok_def)
  have a: "\<forall>msg. check_poes_disagg c curves rlzs \<noteq> Inl (SystemExit msg)"
  proof (cases "ok_sites_loop c curves rlzs (sids c) ([], [])")
    case (Inl e)
    with ok_sites_loop_error [OF Inl] show ?thesis
      by (auto simp: check_poes_disagg_def)
  next
    case (Inr st)
    obtain ok logs where st: "st = (ok, logs)" by (cases st)
    from loop [of ok logs] Inr st have "ok \<noteq> []" by auto
    with Inr st show ?thesis
      by (auto simp: check_poes_disagg_def)
  qed
  have b: "\<forall>ok logs. check_poes_disagg c curves rlzs = Inr (ok, logs) \<longrightarrow> sid \<in> set ok"
  proof (intro allI impI)
    fix ok logs
    assume r: "check_poes_disagg c curves rlzs = Inr (ok, logs)"
    then obtain logs' where "ok_sites_loop c curves rlzs (sids c) ([], []) = Inr (ok, logs')"
      by (auto simp: check_poes_disagg_def split: sum.splits prod.splits if_splits)
    then show "sid \<in> set ok" by (rule loop)
  qed
  from a b loop show "(\<forall>msg. check_poes_disagg c curves rlzs \<noteq> Inl (SystemExit msg)) \<and>
     (\<forall>ok logs. check_poes_disagg c curves rlzs = Inr (ok, logs) \<longrightarrow> sid \<in> set ok) \<and>
     (\<forall>ok logs. ok_sites_loop c curves rlzs (sids c) ([], []) = Inr (ok, logs) \<longrightarrow>
        sid \<in> set ok)"
    by blast
qed

text \<open>
  One site with an infeasible curve and one site without a curve: the run goes
  on with the second site alone.
\<close>

lemma check_none_curve:
  "check_poes_disagg calc0 [Some low_curve, None] [0, 0] =
     Inr ([1], [PoeTooBig 0 (2 / 100) (5 / 1000) 0 ''PGA'', DoingDisagg])"
  by (simp add: check_poes_disagg_def calc0_def check_curve_def amax_def low_curve_def)

theorem none_curve_site_is_ok_witness:
  "check_poes_disagg calc0 [Some low_curve, None] [0, 0] =
     Inr ([1], [PoeTooBig 0 (2 / 100) (5 / 1000) 0 ''PGA'', DoingDisagg]) \<and>
   infeasible (oq_imtls calc0) (oq_poes_disagg calc0) low_curve \<and>
   1 \<in> set [1::nat]"
proof -
  have "1 \<in> set (sids calc0) \<and> [Some low_curve, None] ! 1 = None"
    by (simp add: calc0_def)
  note t = none_curve_site_is_ok [of 1 calc0 "[Some low_curve, None]" "[0, 0]", THEN mp, OF this]
  have "1 \<in> set [1::nat]"
    by (rule t [THEN conjunct2, THEN conjunct1, rule_format, OF check_none_curve])
  moreover have "infeasible (oq_imtls calc0) (oq_poes_disagg calc0) low_curve"
    using low_curve_infeasible by (simp add: calc0_def)
  ultimately show ?thesis
    using check_none_curve by simp
qed


section \<open>Bin edges: proofs\<close>






lemma length_edges: "length (edges n) = Suc n"
  by (simp add: edges_def)

lemma shape_fine:
  "shape_of [edges 2048, edges 2048, edges 8192, edges 8192, edges 8192] 4 =
     [2048, 2048, 8192, 8192, 8192, 4]"
  by (simp add: shape_of_def length_edges)

text \<open>
  Claim C7 says that \<^verbatim>\<open>save_bin_edges\<close> raises whenever the product of the bin
  counts of a site (with the TRT axis) exceeds 10,000,000. The code compares
  the 64-bit product with the ceiling. For a binning of 2048, 2048, 8192, 8192
  and 8192 bins with four tectonic region types the product of the bin counts
  is \<open>2 ^ 63\<close>, the 64-bit product is negative, and \<^verbatim>\<open>save_bin_edges\<close> stores
  the edges without raising.
\<close>

theorem save_bin_edges_overflow:
  "prod_list (shape_of [edges 2048, edges 2048, edges 8192, edges 8192, edges 8192] 4) = 2 ^ 63 \<and>
   (10::int) ^ 7 < 2 ^ 63 \<and>
   save_bin_edges fine_edges 4 [0] =
     Inr [(Mags, edges 2048), (Dists, edges 2048), (Lons 0, edges 8192),
          (Lats 0, edges 8192), (Eps, edges 8192)]"
proof (intro conjI)
  show "prod_list (shape_of [edges 2048, edges 2048, edges 8192, edges 8192, edges 8192] 4) = 2 ^ 63"
    unfolding shape_fine by simp
  show "(10::int) ^ 7 < 2 ^ 63"
    by simp
  have "get_bins fine_edges 0 =
      Inr [edges 2048, edges 2048, edges 8192, edges 8192, edges 8192]"
    by (simp add: get_bins_def fine_edges_def)
  moreover have "numpy_prod [2048, 2048, 8192, 8192, 8192, 4] = - (2 ^ 63)"
    by (simp add: numpy_prod_def)
  ultimately have "check_sizes fine_edges 4 [0] = Inr ()"
    by (simp add: shape_fine)
  then show "save_bin_edges fine_edges 4 [0] =
     Inr [(Mags, edges 2048), (Dists, edges 2048), (Lons 0, edges 8192),
          (Lats 0, edges 8192), (Eps, edges 8192)]"
    by (simp add: save_bin_edges_def fine_edges_def)
qed


lemma prod_list_word_of_int:
  "prod_list (map word_of_int shape) = (word_of_int (prod_list shape) :: 64 word)"
  by (induction shape) simp_all

lemma numpy_prod_exact:
  assumes "- (2 ^ 63) \<le> prod_list shape" and "prod_list shape < 2 ^ 63"
  shows "numpy_prod shape = prod_list shape"
proof -
  have "numpy_prod shape = signed_take_bit 63 (prod_list shape)"
    by (simp add: numpy_prod_def prod_list_word_of_int sint_sbintrunc')
  also have "\<dots> = prod_list shape"
    by (rule signed_take_bit_int_eq_self [OF assms])
  finally show ?thesis .
qed

text \<open>
  As long as the product of the bin counts of every site fits into 64 bits,
  the guard is the one of the specification: the first loop raises exactly
  when the product of some site exceeds 10,000,000.
\<close>

lemma check_sizes_guard:
  assumes "\<forall>sid \<in> set site_ids. \<exists>bins. get_bins b sid = Inr bins \<and>
             - (2 ^ 63) \<le> prod_list (shape_of bins num_trts) \<and>
             prod_list (shape_of bins num_trts) < 2 ^ 63"
  shows "(if \<exists>sid \<in> set site_ids. \<exists>bins. get_bins b sid = Inr bins \<and>
             prod_list (shape_of bins num_trts) > 10 ^ 7
          then \<exists>sid size. check_sizes b num_trts site_ids = Inl (MatrixTooLarge sid size)
          else check_sizes b num_trts site_ids = Inr ())"
  using assms
proof (induction site_ids)
  case Nil
  show ?case by simp
next
  case (Cons sid rest)
  from Cons.prems obtain bins where g: "get_bins b sid = Inr bins"
    and lo: "- (2 ^ 63) \<le> prod_list (shape_of bins num_trts)"
    and hi: "prod_list (shape_of bins num_trts) < 2 ^ 63"
    by auto
  have ex: "numpy_prod (shape_of bins num_trts) = prod_list (shape_of bins num_trts)"
    by (rule numpy_prod_exact [OF lo hi])
  have rest: "\<forall>sid \<in> set rest. \<exists>bins. get_bins b sid = Inr bins \<and>
             - (2 ^ 63) \<le> prod_list (shape_of bins num_trts) \<and>
             prod_list (shape_of bins num_trts) < 2 ^ 63"
    using Cons.prems by simp
  show ?case
    using Cons.IH [OF rest] g ex by (auto simp: Let_def split: if_splits)
qed

end
